theory Spec2Isabelle
  imports Main
begin

section \<open>The unit test runner of cli/js/tests/unit_test_runner.ts\<close>

text \<open>
  The runner re-runs the unit test suite once per permission combination, either in a
  spawned worker process that reports over a TCP connection
  (\<open>runTestsForPermissionSet\<close>, driven by \<open>masterRunnerMain\<close>) or in a Worker of the
  same process (\<open>runTestsInThreadForPermissionSet\<close>, driven by \<open>threadedRunnerMain\<close>).
  The worker process itself runs \<open>workerRunnerMain\<close>.

  Everything a function does besides returning is written into a list of events, in
  program order; a thrown \<open>Error\<close> is the \<open>Inl\<close> of a sum.
\<close>

subsection \<open>Strings: \<open>Array.prototype.join\<close> and \<open>String.prototype.split\<close>\<close>

fun js_join :: "string \<Rightarrow> string list \<Rightarrow> string" where
  "js_join sep [] = []"
| "js_join sep [x] = x"
| "js_join sep (x # y # ys) = x @ sep @ js_join sep (y # ys)"

text \<open>\<open>s.split(c)\<close> for a one-character separator: the empty string gives one empty piece.\<close>

fun js_split :: "char \<Rightarrow> string \<Rightarrow> string list" where
  "js_split c [] = [[]]"
| "js_split c (x # xs) =
     (if x = c then [] # js_split c xs
      else (case js_split c xs of
              [] \<Rightarrow> [[x]]
            | p # ps \<Rightarrow> (x # p) # ps))"

subsection \<open>Permissions\<close>

text \<open>
  A \<open>Permissions\<close> object maps permission names to booleans; \<open>Object.keys\<close> lists the
  keys in insertion order, so the object is an association list (with distinct keys).
\<close>

type_synonym Permissions = "(string \<times> bool) list"

definition PERMISSIONS :: "string list" where
  "PERMISSIONS = [''read'', ''write'', ''net'', ''env'', ''run'', ''plugin'', ''hrtime'']"

text \<open>
  \<open>Object.keys(perms).filter(permName => perms[permName] === true).join(",")\<close>, the
  \<open>permStr\<close> of \<open>spawnWorkerRunner\<close> and of \<open>runTestsInThreadForPermissionSet\<close>.
\<close>

definition permStr :: "Permissions \<Rightarrow> string" where
  "permStr perms' = js_join '','' (map fst (filter snd perms'))"

subsection \<open>Protocol messages\<close>

text \<open>
  Modelled from the spec: the type \<open>Deno.TestMessage\<close>, which the file uses and does
  not declare. A message is an object with the optional fields \<open>start\<close>, \<open>testStart\<close>,
  \<open>testEnd\<close> and \<open>end\<close>, of the shapes of the wire protocol. The field \<open>start\<close> holds
  \<open>start.tests\<close>; the field \<open>end\<close> is written \<open>end'\<close>.
\<close>

record end_message =
  passed :: int
  failed :: int
  ignored :: int
  duration :: int

datatype test_result = ResultPassed | ResultFailed | ResultIgnored

record test_end =
  name :: string
  result :: test_result
  error :: "string option"

record test_message =
  start :: "string list option"
  testStart :: "string option"
  testEnd :: "test_end option"
  end' :: "end_message option"

text \<open>
  One line read from the connection, or one \<open>e.data.testMsg\<close> of the worker channel:
  \<open>Malformed\<close> when \<open>JSON.parse\<close> throws on it, \<open>Decoded m\<close> when it parses to \<open>m\<close>.
\<close>

datatype line = Malformed | Decoded test_message

subsection \<open>Results, errors and events\<close>

record PermissionSetTestResult =
  perms :: Permissions
  passed :: bool
  endMessage :: end_message
  permsStr :: string

text \<open>
  The errors thrown: \<open>JSON.parse\<close>'s \<open>SyntaxError\<close>, and the three \<open>Error\<close>s
  "Worker runner didn't report start", "Worker runner didn't report end" and
  "Worker runner exited with status code: <code>". \<open>ConnectFailed\<close> is a rejected
  \<open>Deno.connect\<close> in the worker process.
\<close>

datatype error =
    SyntaxError
  | NoStartReported
  | NoEndReported
  | WorkerExitStatus int
  | ConnectFailed

text \<open>\<open>await workerProcess.status()\<close>.\<close>

record process_status =
  success :: bool
  code :: int

datatype log_arg = Str string | Num nat

datatype event =
    ConsoleLog "log_arg list"
  | ConsoleError string
  | ReportToConsole test_message
  | Listen string nat
  | Run "string list" string
  | Accept
  | ConnClose
  | ProcessStatus
  | ProcessClose
  | NewWorker string Permissions
  | PostMessage "string option" bool
  | Terminate
  | Exit int

text \<open>
  What the file imports and does not define: \<open>fmtPerms\<close> of test_util.ts and
  \<open>Deno.execPath()\<close>. They are parameters of the model.
\<close>

record host =
  fmtPerms :: "Permissions \<Rightarrow> string"
  execPath :: string

subsection \<open>The worker process: \<open>dropWorkerPermissions\<close>, \<open>workerRunnerMain\<close>\<close>

text \<open>
  The state of the worker process is the set of permission names it holds. Each event
  of the worker that depends on that state records the set held when it happens.
\<close>

datatype worker_event =
    Connect "string set" string "string option"
  | Revoke string
  | RegisterUnitTests "string set"
  | RunTests "string set" "string option"

definition permsToDrop :: "string list \<Rightarrow> string list" where
  "permsToDrop requiredPermissions = filter (\<lambda>p. p \<notin> set requiredPermissions) PERMISSIONS"

text \<open>The loop \<open>for (const perm of permsToDrop) await Deno.permissions.revoke({name: perm})\<close>.\<close>

fun revokeEach :: "string list \<Rightarrow> string set \<Rightarrow> worker_event list \<times> string set" where
  "revokeEach [] held = ([], held)"
| "revokeEach (perm # rest) held =
     (case revokeEach rest (held - {perm}) of (evs, held') \<Rightarrow> (Revoke perm # evs, held'))"

definition dropWorkerPermissions :: "string list \<Rightarrow> string set \<Rightarrow> worker_event list \<times> string set" where
  "dropWorkerPermissions requiredPermissions held = revokeEach (permsToDrop requiredPermissions) held"

text \<open>\<open>const [hostname, port] = addrStr.split(":")\<close>; \<open>port\<close> is kept as text.\<close>

definition splitAddr :: "string \<Rightarrow> string \<times> string option" where
  "splitAddr addrStr =
     (case js_split CHR '':'' addrStr of
        [] \<Rightarrow> ([], None)
      | [hostname] \<Rightarrow> (hostname, None)
      | hostname # port # _ \<Rightarrow> (hostname, Some port))"

text \<open>Lines 59 to 62: the grant list parsed from \<open>--perms\<close>.\<close>

definition parsePerms :: "string \<Rightarrow> string list" where
  "parsePerms permsStr' = (if length permsStr' > 0 then js_split CHR '','' permsStr' else [])"

text \<open>
  \<open>connects\<close> says whether \<open>Deno.connect\<close> resolves; \<open>held\<close> is the set of permissions
  the process starts with.
\<close>

definition workerRunnerMain ::
  "bool \<Rightarrow> string set \<Rightarrow> string \<Rightarrow> string \<Rightarrow> string option
     \<Rightarrow> worker_event list \<times> (error + unit)" where
  "workerRunnerMain connects held addrStr permsStr' filter' =
     (case splitAddr addrStr of (hostname, port) \<Rightarrow>
        let perms' = parsePerms permsStr' in
        if \<not> connects then ([Connect held hostname port], Inl ConnectFailed)
        else
          (case dropWorkerPermissions perms' held of (revoked, held') \<Rightarrow>
             ([Connect held hostname port] @ revoked
                @ [RegisterUnitTests held', RunTests held' filter'], Inr ())))"

subsection \<open>The collectors\<close>

text \<open>\<open>if (filter) { cmd.push("--"); cmd.push(filter) }\<close>: the empty string is falsy.\<close>

definition filterArgs :: "string option \<Rightarrow> string list" where
  "filterArgs filter' =
     (case filter' of
        None \<Rightarrow> []
      | Some f \<Rightarrow> if f = [] then [] else [''--'', f])"

definition spawnWorkerRunner :: "host \<Rightarrow> bool \<Rightarrow> string \<Rightarrow> Permissions \<Rightarrow> string option \<Rightarrow> event" where
  "spawnWorkerRunner h verbose addr perms' filter' =
     (let cmd = [execPath h, ''run'', ''-A'', ''cli/js/tests/unit_test_runner.ts'',
                 ''--worker'', ''--addr='' @ addr, ''--perms='' @ permStr perms']
                @ filterArgs filter';
          ioMode = (if verbose then ''inherit'' else ''null'')
      in Run cmd ioMode)"

text \<open>
  The two local variables \<open>expectedPassedTests\<close> and \<open>endMessage\<close>, \<open>None\<close> while
  undefined, and what the body of both message handlers does to them.
\<close>

type_synonym locals = "nat option \<times> end_message option"

fun record_message :: "test_message \<Rightarrow> locals \<Rightarrow> locals" where
  "record_message message (expectedPassedTests, endMsg) =
     (case start message of
        Some tests \<Rightarrow> (Some (length tests), endMsg)
      | None \<Rightarrow>
          (case end' message of
             Some e \<Rightarrow> (expectedPassedTests, Some e)
           | None \<Rightarrow> (expectedPassedTests, endMsg)))"

text \<open>
  \<open>for await (const line of readLines(conn))\<close>: every line up to the end of the stream
  is parsed and reported; a \<open>SyntaxError\<close> leaves the loop.
\<close>

fun readLines :: "line list \<Rightarrow> locals \<Rightarrow> event list \<times> error option \<times> locals" where
  "readLines [] vars = ([], None, vars)"
| "readLines (Malformed # rest) vars = ([], Some SyntaxError, vars)"
| "readLines (Decoded message # rest) vars =
     (case readLines rest (record_message message vars) of
        (evs, r) \<Rightarrow> (ReportToConsole message # evs, r))"

definition runTestsForPermissionSet ::
  "host \<Rightarrow> string \<Rightarrow> bool \<Rightarrow> Permissions \<Rightarrow> string option \<Rightarrow> line list \<Rightarrow> process_status
     \<Rightarrow> event list \<times> (error + PermissionSetTestResult)" where
  "runTestsForPermissionSet h addrStr verbose perms' filter' lines workerStatus =
     (let permsFmt = fmtPerms h perms';
          begun = [ConsoleLog [Str (''Running tests for: '' @ permsFmt)],
                   spawnWorkerRunner h verbose addrStr perms' filter', Accept]
      in case readLines lines (None, None) of
           (reports, thrown, expectedPassedTests, endMsg) \<Rightarrow>
             let evs = begun @ reports @ [ConnClose] in
             (case thrown of
                Some e \<Rightarrow> (evs, Inl e)
              | None \<Rightarrow>
                  (case expectedPassedTests of
                     None \<Rightarrow> (evs, Inl NoStartReported)
                   | Some expected \<Rightarrow>
                       (case endMsg of
                          None \<Rightarrow> (evs, Inl NoEndReported)
                        | Some e \<Rightarrow>
                            if \<not> success workerStatus
                            then (evs @ [ProcessStatus],
                                  Inl (WorkerExitStatus (code workerStatus)))
                            else (evs @ [ProcessStatus, ProcessClose],
                                  Inr \<lparr>perms = perms',
                                       passed = (int expected = end_message.passed e + ignored e),
                                       endMessage = e,
                                       permsStr = permsFmt\<rparr>)))))"

text \<open>
  The worker channel. \<open>worker.onmessage\<close> runs once per message; on a message with no
  \<open>start\<close> and an \<open>end\<close> it terminates the worker, after which no message is delivered,
  and resolves the promise the function awaits. When the messages run out before
  that, the promise stays pending. An exception of \<open>JSON.parse\<close> leaves the handler;
  nothing in the file catches it, and the run ends with it.
\<close>

datatype awaited = Resolved | Pending | HandlerThrew error

fun onmessage :: "line list \<Rightarrow> locals \<Rightarrow> event list \<times> awaited \<times> locals" where
  "onmessage [] vars = ([], Pending, vars)"
| "onmessage (Malformed # rest) vars = ([], HandlerThrew SyntaxError, vars)"
| "onmessage (Decoded message # rest) vars =
     (case start message of
        Some tests \<Rightarrow>
          (case onmessage rest (record_message message vars) of
             (evs, r) \<Rightarrow> (ReportToConsole message # evs, r))
      | None \<Rightarrow>
          (case end' message of
             Some e \<Rightarrow> ([ReportToConsole message, Terminate], Resolved, record_message message vars)
           | None \<Rightarrow>
               (case onmessage rest (record_message message vars) of
                  (evs, r) \<Rightarrow> (ReportToConsole message # evs, r))))"

text \<open>The result is \<open>None\<close> when the awaited promise never resolves.\<close>

definition runTestsInThreadForPermissionSet ::
  "host \<Rightarrow> bool \<Rightarrow> Permissions \<Rightarrow> string option \<Rightarrow> line list
     \<Rightarrow> event list \<times> (error + PermissionSetTestResult) option" where
  "runTestsInThreadForPermissionSet h verbose perms' filter' lines =
     (let permsFmt = fmtPerms h perms';
          begun = [ConsoleLog [Str (''Running tests for: '' @ permsFmt)],
                   NewWorker (permStr perms') perms',
                   PostMessage filter' verbose]
      in case onmessage lines (None, None) of
           (reports, waited, expectedPassedTests, endMsg) \<Rightarrow>
             let evs = begun @ reports in
             (case waited of
                Pending \<Rightarrow> (evs, None)
              | HandlerThrew e \<Rightarrow> (evs, Some (Inl e))
              | Resolved \<Rightarrow>
                  (case expectedPassedTests of
                     None \<Rightarrow> (evs, Some (Inl NoStartReported))
                   | Some expected \<Rightarrow>
                       (case endMsg of
                          None \<Rightarrow> (evs, Some (Inl NoEndReported))
                        | Some e \<Rightarrow>
                            (evs,
                             Some (Inr \<lparr>perms = perms',
                                        passed = (int expected = end_message.passed e + ignored e),
                                        endMessage = e,
                                        permsStr = permsFmt\<rparr>))))))"

subsection \<open>The sweeps: \<open>masterRunnerMain\<close>, \<open>threadedRunnerMain\<close>\<close>

text \<open>
  How a main function ends: it returns, it calls \<open>Deno.exit\<close>, an error it does not
  catch leaves it, or a promise it awaits never resolves.
\<close>

datatype outcome = Returned | Exited int | Threw error | Hung

text \<open>
  The first lines of both main functions: the size of \<open>permissionCombinations\<close>, then a
  tab and \<open>fmtPerms\<close> of each of its values.
\<close>

definition discovered :: "host \<Rightarrow> Permissions list \<Rightarrow> event list" where
  "discovered h combinations =
     ConsoleLog [Str ''Discovered permission combinations for tests:'', Num (length combinations)]
     # map (\<lambda>p. ConsoleLog [Str (CHR 0x09 # fmtPerms h p)]) combinations"

text \<open>
  The second loop of both main functions, over \<open>testResults\<close>: a \<open>Set\<close> of result
  objects, each a fresh object, iterated in insertion order, so a list.
\<close>

fun summaries :: "PermissionSetTestResult list \<Rightarrow> bool \<Rightarrow> event list \<times> bool" where
  "summaries [] testsPassed = ([], testsPassed)"
| "summaries (testResult # rest) testsPassed =
     (case summaries rest (testsPassed \<and> passed testResult) of
        (evs, b) \<Rightarrow>
          (ConsoleLog [Str (''Summary for '' @ permsStr testResult)]
           # ReportToConsole \<lparr>start = None, testStart = None, testEnd = None,
                              end' = Some (endMessage testResult)\<rparr>
           # evs, b))"

definition conclude :: "PermissionSetTestResult list \<Rightarrow> event list \<times> outcome" where
  "conclude testResults =
     (case summaries testResults True of
        (evs, testsPassed) \<Rightarrow>
          if \<not> testsPassed
          then (evs @ [ConsoleError ''Unit tests failed'', Exit 1], Exited 1)
          else (evs @ [ConsoleLog [Str ''Unit tests passed'']], Returned))"

text \<open>
  The first loop of \<open>masterRunnerMain\<close>. Each element of the sweep is one value of
  \<open>permissionCombinations\<close> with what its worker process will send and how it will exit.
  There is no \<open>try\<close> around the call: an error of one run leaves the loop.
\<close>

fun masterSweep ::
  "host \<Rightarrow> string \<Rightarrow> bool \<Rightarrow> string option \<Rightarrow> (Permissions \<times> line list \<times> process_status) list
     \<Rightarrow> event list \<times> (error + PermissionSetTestResult list)" where
  "masterSweep h addrStr verbose filter' [] = ([], Inr [])"
| "masterSweep h addrStr verbose filter' ((perms', lines, workerStatus) # rest) =
     (case runTestsForPermissionSet h addrStr verbose perms' filter' lines workerStatus of
        (evs, Inl e) \<Rightarrow> (evs, Inl e)
      | (evs, Inr testResult) \<Rightarrow>
          (case masterSweep h addrStr verbose filter' rest of
             (evs', Inl e) \<Rightarrow> (evs @ evs', Inl e)
           | (evs', Inr testResults) \<Rightarrow> (evs @ evs', Inr (testResult # testResults))))"

definition masterRunnerMain ::
  "host \<Rightarrow> bool \<Rightarrow> string option \<Rightarrow> (Permissions \<times> line list \<times> process_status) list
     \<Rightarrow> event list \<times> outcome" where
  "masterRunnerMain h verbose filter' sweep =
     (let begun = discovered h (map fst sweep) @ [Listen ''127.0.0.1'' 4510];
          addrStr = ''127.0.0.1:4510''
      in case masterSweep h addrStr verbose filter' sweep of
           (evs, Inl e) \<Rightarrow> (begun @ evs, Threw e)
         | (evs, Inr testResults) \<Rightarrow>
             (case conclude testResults of
                (evs', out) \<Rightarrow> (begun @ evs @ evs', out)))"

text \<open>The first loop of \<open>threadedRunnerMain\<close>; a run that never resolves hangs the sweep.\<close>

fun threadedSweep ::
  "host \<Rightarrow> bool \<Rightarrow> string option \<Rightarrow> (Permissions \<times> line list) list
     \<Rightarrow> event list \<times> (error + PermissionSetTestResult list) option" where
  "threadedSweep h verbose filter' [] = ([], Some (Inr []))"
| "threadedSweep h verbose filter' ((perms', lines) # rest) =
     (case runTestsInThreadForPermissionSet h verbose perms' filter' lines of
        (evs, None) \<Rightarrow> (evs, None)
      | (evs, Some (Inl e)) \<Rightarrow> (evs, Some (Inl e))
      | (evs, Some (Inr testResult)) \<Rightarrow>
          (case threadedSweep h verbose filter' rest of
             (evs', None) \<Rightarrow> (evs @ evs', None)
           | (evs', Some (Inl e)) \<Rightarrow> (evs @ evs', Some (Inl e))
           | (evs', Some (Inr testResults)) \<Rightarrow> (evs @ evs', Some (Inr (testResult # testResults)))))"

definition threadedRunnerMain ::
  "host \<Rightarrow> bool \<Rightarrow> string option \<Rightarrow> (Permissions \<times> line list) list \<Rightarrow> event list \<times> outcome" where
  "threadedRunnerMain h verbose filter' sweep =
     (let begun = discovered h (map fst sweep)
      in case threadedSweep h verbose filter' sweep of
           (evs, None) \<Rightarrow> (begun @ evs, Hung)
         | (evs, Some (Inl e)) \<Rightarrow> (begun @ evs, Threw e)
         | (evs, Some (Inr testResults)) \<Rightarrow>
             (case conclude testResults of
                (evs', out) \<Rightarrow> (begun @ evs @ evs', out)))"

text \<open>The two events of one iteration of the summary loop.\<close>

definition summaryBlock :: "PermissionSetTestResult \<Rightarrow> event list" where
  "summaryBlock testResult =
     [ConsoleLog [Str (''Summary for '' @ permsStr testResult)],
      ReportToConsole \<lparr>start = None, testStart = None, testEnd = None,
                        end' = Some (endMessage testResult)\<rparr>]"

text \<open>One element of a sweep, run on its own.\<close>

definition processRun ::
  "host \<Rightarrow> string \<Rightarrow> bool \<Rightarrow> string option \<Rightarrow> Permissions \<times> line list \<times> process_status
     \<Rightarrow> event list \<times> (error + PermissionSetTestResult)" where
  "processRun h addrStr verbose filter' x =
     runTestsForPermissionSet h addrStr verbose (fst x) filter' (fst (snd x)) (snd (snd x))"

definition threadRun ::
  "host \<Rightarrow> bool \<Rightarrow> string option \<Rightarrow> Permissions \<times> line list
     \<Rightarrow> event list \<times> (error + PermissionSetTestResult) option" where
  "threadRun h verbose filter' x = runTestsInThreadForPermissionSet h verbose (fst x) filter' (snd x)"

subsection \<open>What a message stream holds\<close>

text \<open>
  A message counts as a Start when it has a \<open>start\<close> field, and as an End when it has an
  \<open>end\<close> field and no \<open>start\<close> field: the handlers test \<open>start\<close> first.
\<close>

definition is_End :: "line \<Rightarrow> bool" where
  "is_End l = (case l of Malformed \<Rightarrow> False | Decoded m \<Rightarrow> start m = None \<and> end' m \<noteq> None)"

text \<open>The declared counts of the Start messages of a stream, in order.\<close>

fun starts :: "line list \<Rightarrow> nat list" where
  "starts [] = []"
| "starts (Malformed # rest) = starts rest"
| "starts (Decoded m # rest) =
     (case start m of Some tests \<Rightarrow> length tests # starts rest | None \<Rightarrow> starts rest)"

text \<open>The summaries of the End messages of a stream, in order.\<close>

fun ends :: "line list \<Rightarrow> end_message list" where
  "ends [] = []"
| "ends (Malformed # rest) = ends rest"
| "ends (Decoded m # rest) =
     (case start m of
        Some tests \<Rightarrow> ends rest
      | None \<Rightarrow> (case end' m of Some e \<Rightarrow> e # ends rest | None \<Rightarrow> ends rest))"

text \<open>The stream up to and including its first End message.\<close>

fun upto_End :: "line list \<Rightarrow> line list" where
  "upto_End [] = []"
| "upto_End (l # rest) = (if is_End l then [l] else l # upto_End rest)"

text \<open>The messages of a stream that parse, in order.\<close>

fun decoded :: "line list \<Rightarrow> test_message list" where
  "decoded [] = []"
| "decoded (Malformed # rest) = decoded rest"
| "decoded (Decoded m # rest) = m # decoded rest"

text \<open>
  A host, three messages and two exit statuses for the examples. In the examples
  \<open>fmtPerms\<close> renders a permission set as its granted names.
\<close>

definition host0 :: host where
  "host0 = \<lparr>fmtPerms = permStr, execPath = ''deno''\<rparr>"

definition msgStart :: "string list \<Rightarrow> test_message" where
  "msgStart tests = \<lparr>start = Some tests, testStart = None, testEnd = None, end' = None\<rparr>"

definition msgEnd :: "int \<Rightarrow> int \<Rightarrow> int \<Rightarrow> test_message" where
  "msgEnd p f i =
     \<lparr>start = None, testStart = None, testEnd = None,
      end' = Some \<lparr>end_message.passed = p, failed = f, ignored = i, duration = 0\<rparr>\<rparr>"


definition exit0 :: process_status where
  "exit0 = \<lparr>success = True, code = 0\<rparr>"

definition exit1 :: process_status where
  "exit1 = \<lparr>success = False, code = 1\<rparr>"

section \<open>The collectors in terms of the message stream\<close>

lemma readLines_thrown:
  "fst (snd (readLines lines vars)) = (if Malformed \<in> set lines then Some SyntaxError else None)"
proof (induction lines vars rule: readLines.induct)
  case (3 message rest vars)
  then show ?case by (auto split: prod.splits)
qed simp_all

lemma readLines_locals:
  "Malformed \<notin> set lines \<Longrightarrow>
   snd (snd (readLines lines (ex, en))) =
     (if starts lines = [] then ex else Some (last (starts lines)),
      if ends lines = [] then en else Some (last (ends lines)))"
proof (induction lines arbitrary: ex en)
  case Nil
  then show ?case by simp
next
  case (Cons l rest)
  then obtain m where l: "l = Decoded m" by (cases l) auto
  from Cons.prems have rest: "Malformed \<notin> set rest" by simp
  show ?case
  proof (cases "start m")
    case None
    note st = this
    show ?thesis
    proof (cases "end' m")
      case None
      with st l Cons.IH[OF rest, of ex en] show ?thesis by (auto split: prod.splits)
    next
      case (Some e)
      with st l Cons.IH[OF rest, of ex "Some e"] show ?thesis by (auto split: prod.splits)
    qed
  next
    case (Some tests)
    with l Cons.IH[OF rest, of "Some (length tests)" en] show ?thesis by (auto split: prod.splits)
  qed
qed

lemma readLines_events:
  "Malformed \<notin> set lines \<Longrightarrow> fst (readLines lines vars) = map ReportToConsole (decoded lines)"
proof (induction lines arbitrary: vars)
  case Nil
  then show ?case by simp
next
  case (Cons l rest)
  then obtain m where l: "l = Decoded m" by (cases l) auto
  from Cons.prems have "Malformed \<notin> set rest" by simp
  from Cons.IH[OF this, of "record_message m vars"] l show ?case
    by (cases "readLines rest (record_message m vars)") simp
qed

lemma process_result:
  "snd (runTestsForPermissionSet h a v ps f lines st) =
     (if Malformed \<in> set lines then Inl SyntaxError
      else if starts lines = [] then Inl NoStartReported
      else if ends lines = [] then Inl NoEndReported
      else if \<not> success st then Inl (WorkerExitStatus (code st))
      else Inr \<lparr>perms = ps,
                passed = (int (last (starts lines))
                           = end_message.passed (last (ends lines)) + ignored (last (ends lines))),
                endMessage = last (ends lines),
                permsStr = fmtPerms h ps\<rparr>)"
proof -
  obtain reports thrown ex en where r: "readLines lines (None, None) = (reports, thrown, ex, en)"
    by (cases "readLines lines (None, None)") auto
  have t: "thrown = (if Malformed \<in> set lines then Some SyntaxError else None)"
    using readLines_thrown[of lines "(None, None)"] r by simp
  show ?thesis
  proof (cases "Malformed \<in> set lines")
    case True
    with r t show ?thesis by (simp add: runTestsForPermissionSet_def Let_def)
  next
    case False
    from readLines_locals[OF False, of None None] r
    have "ex = (if starts lines = [] then None else Some (last (starts lines)))"
      and "en = (if ends lines = [] then None else Some (last (ends lines)))"
      by simp_all
    with r t False show ?thesis by (simp add: runTestsForPermissionSet_def Let_def)
  qed
qed

lemma process_events:
  assumes "Malformed \<notin> set lines"
  shows "fst (runTestsForPermissionSet h a v ps f lines st) =
     [ConsoleLog [Str (''Running tests for: '' @ fmtPerms h ps)],
      spawnWorkerRunner h v a ps f, Accept]
     @ map ReportToConsole (decoded lines)
     @ [ConnClose]
     @ (if starts lines = [] \<or> ends lines = [] then []
        else if success st then [ProcessStatus, ProcessClose] else [ProcessStatus])"
proof -
  obtain reports thrown ex en where r: "readLines lines (None, None) = (reports, thrown, ex, en)"
    by (cases "readLines lines (None, None)") auto
  from readLines_thrown[of lines "(None, None)"] r assms have t: "thrown = None" by simp
  from readLines_events[OF assms, of "(None, None)"] r
  have e: "reports = map ReportToConsole (decoded lines)" by simp
  from readLines_locals[OF assms, of None None] r
  have "ex = (if starts lines = [] then None else Some (last (starts lines)))"
    and "en = (if ends lines = [] then None else Some (last (ends lines)))"
    by simp_all
  with r t e show ?thesis by (simp add: runTestsForPermissionSet_def Let_def)
qed

lemma process_first_event:
  "hd (fst (runTestsForPermissionSet h a v ps f lines st)) =
     ConsoleLog [Str (''Running tests for: '' @ fmtPerms h ps)]"
proof -
  obtain reports thrown ex en where r: "readLines lines (None, None) = (reports, thrown, ex, en)"
    by (cases "readLines lines (None, None)") auto
  then show ?thesis
    by (simp add: runTestsForPermissionSet_def Let_def split: option.splits)
qed

lemma ends_append: "ends (xs @ ys) = ends xs @ ends ys"
proof (induction xs)
  case Nil
  then show ?case by simp
next
  case (Cons l xs)
  then show ?case by (cases l) (auto split: option.splits)
qed

lemma ends_is_End: "is_End l \<Longrightarrow> ends [l] \<noteq> []"
  by (cases l) (auto simp: is_End_def)

lemma ends_no_End: "\<not> list_ex is_End pre \<Longrightarrow> ends pre = []"
proof (induction pre)
  case Nil
  then show ?case by simp
next
  case (Cons l pre)
  then show ?case by (cases l) (auto simp: is_End_def split: option.splits)
qed

lemma upto_End_append: "is_End l \<Longrightarrow> upto_End (pre @ l # post) = upto_End (pre @ [l])"
  by (induction pre) auto

lemma upto_End_last: "\<not> list_ex is_End pre \<Longrightarrow> is_End l \<Longrightarrow> upto_End (pre @ [l]) = pre @ [l]"
  by (induction pre) auto

lemma ends_upto_End: "ends (upto_End lines) = (if ends lines = [] then [] else [hd (ends lines)])"
proof (induction lines)
  case Nil
  then show ?case by simp
next
  case (Cons l rest)
  then show ?case by (cases l) (auto simp: is_End_def split: option.splits)
qed

lemma onmessage_upto_End: "onmessage (upto_End lines) vars = onmessage lines vars"
proof (induction lines vars rule: onmessage.induct)
  case (3 message rest vars)
  then show ?case by (auto simp: is_End_def split: option.splits prod.splits)
qed (simp_all add: is_End_def)

lemma onmessage_awaited:
  "fst (snd (onmessage lines vars)) =
     (if Malformed \<in> set (upto_End lines) then HandlerThrew SyntaxError
      else if ends lines = [] then Pending else Resolved)"
proof (induction lines vars rule: onmessage.induct)
  case (3 message rest vars)
  then show ?case by (auto simp: is_End_def split: option.splits prod.splits)
qed (simp_all add: is_End_def)

lemma onmessage_locals:
  "Malformed \<notin> set (upto_End lines) \<Longrightarrow>
   snd (snd (onmessage lines (ex, en))) =
     (if starts (upto_End lines) = [] then ex else Some (last (starts (upto_End lines))),
      if ends lines = [] then en else Some (hd (ends lines)))"
proof (induction lines arbitrary: ex en)
  case Nil
  then show ?case by simp
next
  case (Cons l rest)
  then obtain m where l: "l = Decoded m" by (cases l) (auto simp: is_End_def)
  show ?case
  proof (cases "start m")
    case None
    note st = this
    show ?thesis
    proof (cases "end' m")
      case None
      with st l Cons.prems have "Malformed \<notin> set (upto_End rest)" by (simp add: is_End_def)
      from Cons.IH[OF this, of ex en] None st l show ?thesis
        by (auto simp: is_End_def split: prod.splits)
    next
      case (Some e)
      with st l show ?thesis by (simp add: is_End_def)
    qed
  next
    case (Some tests)
    with l Cons.prems have "Malformed \<notin> set (upto_End rest)" by (simp add: is_End_def)
    from Cons.IH[OF this, of "Some (length tests)" en] Some l show ?thesis
      by (auto simp: is_End_def split: prod.splits)
  qed
qed

lemma onmessage_events:
  "Malformed \<notin> set (upto_End lines) \<Longrightarrow>
   fst (onmessage lines vars) =
     map ReportToConsole (decoded (upto_End lines)) @ (if ends lines = [] then [] else [Terminate])"
proof (induction lines arbitrary: vars)
  case Nil
  then show ?case by simp
next
  case (Cons l rest)
  then obtain m where l: "l = Decoded m" by (cases l) (auto simp: is_End_def)
  show ?case
  proof (cases "is_End l")
    case True
    with l show ?thesis by (auto simp: is_End_def)
  next
    case False
    with Cons.prems have "Malformed \<notin> set (upto_End rest)" by simp
    from Cons.IH[OF this, of "record_message m vars"] False l show ?thesis
      by (cases "onmessage rest (record_message m vars)")
        (auto simp: is_End_def split: option.splits)
  qed
qed

lemma thread_result:
  "snd (runTestsInThreadForPermissionSet h v ps f lines) =
     (if Malformed \<in> set (upto_End lines) then Some (Inl SyntaxError)
      else if ends lines = [] then None
      else if starts (upto_End lines) = [] then Some (Inl NoStartReported)
      else Some (Inr \<lparr>perms = ps,
                      passed = (int (last (starts (upto_End lines)))
                                 = end_message.passed (hd (ends lines)) + ignored (hd (ends lines))),
                      endMessage = hd (ends lines),
                      permsStr = fmtPerms h ps\<rparr>))"
proof -
  obtain reports waited ex en where r: "onmessage lines (None, None) = (reports, waited, ex, en)"
    by (cases "onmessage lines (None, None)") auto
  have w: "waited = (if Malformed \<in> set (upto_End lines) then HandlerThrew SyntaxError
                     else if ends lines = [] then Pending else Resolved)"
    using onmessage_awaited[of lines "(None, None)"] r by simp
  show ?thesis
  proof (cases "Malformed \<in> set (upto_End lines)")
    case True
    with r w show ?thesis by (simp add: runTestsInThreadForPermissionSet_def Let_def)
  next
    case False
    from onmessage_locals[OF False, of None None] r
    have "ex = (if starts (upto_End lines) = [] then None else Some (last (starts (upto_End lines))))"
      and "en = (if ends lines = [] then None else Some (hd (ends lines)))"
      by simp_all
    with r w False show ?thesis by (simp add: runTestsInThreadForPermissionSet_def Let_def)
  qed
qed

lemma thread_events:
  assumes "Malformed \<notin> set (upto_End lines)"
  shows "fst (runTestsInThreadForPermissionSet h v ps f lines) =
     [ConsoleLog [Str (''Running tests for: '' @ fmtPerms h ps)],
      NewWorker (permStr ps) ps, PostMessage f v]
     @ map ReportToConsole (decoded (upto_End lines))
     @ (if ends lines = [] then [] else [Terminate])"
proof -
  obtain reports waited ex en where r: "onmessage lines (None, None) = (reports, waited, ex, en)"
    by (cases "onmessage lines (None, None)") auto
  from onmessage_events[OF assms, of "(None, None)"] r
  have "reports = map ReportToConsole (decoded (upto_End lines)) @ (if ends lines = [] then [] else [Terminate])"
    by simp
  with r show ?thesis
    by (simp add: runTestsInThreadForPermissionSet_def Let_def
        split: awaited.splits option.splits)
qed

lemma thread_upto_End:
  "runTestsInThreadForPermissionSet h v ps f (upto_End lines) =
   runTestsInThreadForPermissionSet h v ps f lines"
  by (simp add: runTestsInThreadForPermissionSet_def onmessage_upto_End)

section \<open>The sweeps in terms of their runs\<close>

lemma summaries_passed: "snd (summaries rs b) = (b \<and> list_all passed rs)"
proof (induction rs arbitrary: b)
  case Nil
  then show ?case by simp
next
  case (Cons r rs)
  obtain evs b' where s: "summaries rs (b \<and> passed r) = (evs, b')"
    by (cases "summaries rs (b \<and> passed r)") auto
  with Cons.IH[of "b \<and> passed r"] have "b' = ((b \<and> passed r) \<and> list_all passed rs)" by simp
  with s show ?case by simp
qed

lemma summaries_events: "fst (summaries rs b) = concat (map summaryBlock rs)"
proof (induction rs arbitrary: b)
  case Nil
  then show ?case by simp
next
  case (Cons r rs)
  obtain evs b' where s: "summaries rs (b \<and> passed r) = (evs, b')"
    by (cases "summaries rs (b \<and> passed r)") auto
  with Cons.IH[of "b \<and> passed r"] have evs: "evs = concat (map summaryBlock rs)" by simp
  have "fst (summaries (r # rs) b) = summaryBlock r @ evs"
    using s by (simp add: summaryBlock_def)
  with evs show ?case by simp
qed

lemma conclude_outcome: "snd (conclude rs) = (if list_all passed rs then Returned else Exited 1)"
proof -
  obtain evs b where s: "summaries rs True = (evs, b)" by (cases "summaries rs True") auto
  with summaries_passed[of rs True] have "b = list_all passed rs" by simp
  with s show ?thesis by (simp add: conclude_def)
qed

lemma conclude_events:
  "fst (conclude rs) =
     concat (map summaryBlock rs)
     @ (if list_all passed rs then [ConsoleLog [Str ''Unit tests passed'']]
        else [ConsoleError ''Unit tests failed'', Exit 1])"
proof -
  obtain evs b where s: "summaries rs True = (evs, b)" by (cases "summaries rs True") auto
  with summaries_passed[of rs True] summaries_events[of rs True]
  have "b = list_all passed rs" and "evs = concat (map summaryBlock rs)" by simp_all
  with s show ?thesis by (simp add: conclude_def)
qed

lemma masterSweep_all:
  "map (\<lambda>y. snd (processRun h a v f y)) sweep = map Inr rs \<Longrightarrow>
   masterSweep h a v f sweep = (concat (map (\<lambda>y. fst (processRun h a v f y)) sweep), Inr rs)"
proof (induction sweep arbitrary: rs)
  case Nil
  then show ?case by simp
next
  case (Cons x sweep)
  obtain ps ls st where x: "x = (ps, ls, st)" by (cases x) auto
  from Cons.prems obtain r rs' where rs: "rs = r # rs'" by (cases rs) auto
  with Cons.prems have hd: "snd (processRun h a v f x) = Inr r"
    and tl: "map (\<lambda>y. snd (processRun h a v f y)) sweep = map Inr rs'" by simp_all
  obtain evs where e: "runTestsForPermissionSet h a v ps f ls st = (evs, Inr r)"
    using hd x by (cases "runTestsForPermissionSet h a v ps f ls st") (auto simp: processRun_def)
  from Cons.IH[OF tl] e x rs show ?case by (simp add: processRun_def)
qed

lemma masterSweep_stops:
  "map (\<lambda>y. snd (processRun h a v f y)) pre = map Inr rs \<Longrightarrow>
   snd (processRun h a v f x) = Inl e \<Longrightarrow>
   masterSweep h a v f (pre @ x # post) =
     (concat (map (\<lambda>y. fst (processRun h a v f y)) pre) @ fst (processRun h a v f x), Inl e)"
proof (induction pre arbitrary: rs)
  case Nil
  obtain ps ls st where x: "x = (ps, ls, st)" by (cases x) auto
  obtain evs where "runTestsForPermissionSet h a v ps f ls st = (evs, Inl e)"
    using Nil.prems(2) x by (cases "runTestsForPermissionSet h a v ps f ls st") (auto simp: processRun_def)
  with x show ?case by (simp add: processRun_def)
next
  case (Cons y pre)
  obtain ps ls st where y: "y = (ps, ls, st)" by (cases y) auto
  from Cons.prems(1) obtain r rs' where rs: "rs = r # rs'" by (cases rs) auto
  with Cons.prems(1) have hd: "snd (processRun h a v f y) = Inr r"
    and tl: "map (\<lambda>y. snd (processRun h a v f y)) pre = map Inr rs'" by simp_all
  obtain evs where e: "runTestsForPermissionSet h a v ps f ls st = (evs, Inr r)"
    using hd y by (cases "runTestsForPermissionSet h a v ps f ls st") (auto simp: processRun_def)
  from Cons.IH[OF tl Cons.prems(2)] e y show ?case by (simp add: processRun_def)
qed

lemma masterSweep_Inr_all:
  "snd (masterSweep h a v f sweep) = Inr rs \<Longrightarrow> x \<in> set sweep \<Longrightarrow>
   \<exists>r. snd (processRun h a v f x) = Inr r"
proof (induction sweep arbitrary: rs)
  case Nil
  then show ?case by simp
next
  case (Cons y sweep)
  obtain ps ls st where y: "y = (ps, ls, st)" by (cases y) auto
  obtain evs res where r: "runTestsForPermissionSet h a v ps f ls st = (evs, res)"
    by (cases "runTestsForPermissionSet h a v ps f ls st") auto
  obtain evs' res' where r': "masterSweep h a v f sweep = (evs', res')"
    by (cases "masterSweep h a v f sweep") auto
  from Cons.prems(1) y r obtain t where t: "res = Inr t" by (cases res) auto
  from Cons.prems(1) y r r' t obtain ts where ts: "res' = Inr ts" by (cases res') auto
  show ?case
  proof (cases "x = y")
    case True
    with y r t show ?thesis by (simp add: processRun_def)
  next
    case False
    with Cons.prems(2) have "x \<in> set sweep" by simp
    with Cons.IH[of ts] r' ts show ?thesis by simp
  qed
qed

lemma masterRunnerMain_Returned:
  "snd (masterRunnerMain h v f sweep) = Returned \<Longrightarrow>
   \<exists>rs. snd (masterSweep h ''127.0.0.1:4510'' v f sweep) = Inr rs"
proof -
  assume a: "snd (masterRunnerMain h v f sweep) = Returned"
  obtain evs res where r: "masterSweep h ''127.0.0.1:4510'' v f sweep = (evs, res)"
    by (cases "masterSweep h ''127.0.0.1:4510'' v f sweep") auto
  with a show ?thesis by (cases res) (auto simp: masterRunnerMain_def)
qed

lemma threadedSweep_all:
  "map (\<lambda>y. snd (threadRun h v f y)) sweep = map (\<lambda>r. Some (Inr r)) rs \<Longrightarrow>
   threadedSweep h v f sweep = (concat (map (\<lambda>y. fst (threadRun h v f y)) sweep), Some (Inr rs))"
proof (induction sweep arbitrary: rs)
  case Nil
  then show ?case by simp
next
  case (Cons x sweep)
  obtain ps ls where x: "x = (ps, ls)" by (cases x) auto
  from Cons.prems obtain r rs' where rs: "rs = r # rs'" by (cases rs) auto
  with Cons.prems have hd: "snd (threadRun h v f x) = Some (Inr r)"
    and tl: "map (\<lambda>y. snd (threadRun h v f y)) sweep = map (\<lambda>r. Some (Inr r)) rs'" by simp_all
  obtain evs where e: "runTestsInThreadForPermissionSet h v ps f ls = (evs, Some (Inr r))"
    using hd x by (cases "runTestsInThreadForPermissionSet h v ps f ls") (auto simp: threadRun_def)
  from Cons.IH[OF tl] e x rs show ?case by (simp add: threadRun_def)
qed

section \<open>The worker process in terms of its grant list\<close>

lemma revokeEach_eq: "revokeEach ps held = (map Revoke ps, held - set ps)"
proof (induction ps arbitrary: held)
  case Nil
  then show ?case by simp
next
  case (Cons p ps)
  have "held - {p} - set ps = held - set (p # ps)" by auto
  with Cons.IH[of "held - {p}"] show ?case by simp
qed

lemma set_permsToDrop: "set (permsToDrop required) = set PERMISSIONS - set required"
  by (auto simp: permsToDrop_def)

lemma workerRunnerMain_connected:
  "workerRunnerMain True held addrStr pstr flt =
     (Connect held (fst (splitAddr addrStr)) (snd (splitAddr addrStr))
      # map Revoke (permsToDrop (parsePerms pstr))
      @ [RegisterUnitTests (held - (set PERMISSIONS - set (parsePerms pstr))),
         RunTests (held - (set PERMISSIONS - set (parsePerms pstr))) flt],
      Inr ())"
  by (cases "splitAddr addrStr")
    (simp add: workerRunnerMain_def Let_def dropWorkerPermissions_def revokeEach_eq set_permsToDrop)

section \<open>The claims\<close>

text \<open>
  C1. A run in which a Start and an End were observed, and which gives a verdict, has
  \<open>passed\<close> true exactly when the number of tests declared by the Start equals the
  \<open>passed\<close> count plus the \<open>ignored\<close> count of the End. The process collector reads the
  whole stream, so its Start and End are the last ones; the worker collector stops at
  the first End, so its End is the first one and its Start the last one before it.
\<close>

theorem passed_iff_declared_eq_completed:
  "(Malformed \<notin> set lines \<and> starts lines \<noteq> [] \<and> ends lines \<noteq> [] \<and> success st \<longrightarrow>
      (\<exists>verdict. snd (runTestsForPermissionSet h a v ps f lines st) = Inr verdict
         \<and> endMessage verdict = last (ends lines)
         \<and> passed verdict =
             (int (last (starts lines))
                = end_message.passed (last (ends lines)) + ignored (last (ends lines)))))
   \<and> (Malformed \<notin> set (upto_End lines) \<and> starts (upto_End lines) \<noteq> [] \<and> ends lines \<noteq> [] \<longrightarrow>
      (\<exists>verdict. snd (runTestsInThreadForPermissionSet h v ps f lines) = Some (Inr verdict)
         \<and> endMessage verdict = hd (ends lines)
         \<and> passed verdict =
             (int (last (starts (upto_End lines)))
                = end_message.passed (hd (ends lines)) + ignored (hd (ends lines)))))"
  by (simp add: process_result thread_result)

theorem passed_iff_declared_eq_completed_witness:
  "(\<exists>verdict.
      snd (runTestsForPermissionSet host0 ''127.0.0.1:4510'' False [(''read'', True)] None
             [Decoded (msgStart [''a'', ''b'']), Decoded (msgEnd 1 0 0)] exit0) = Inr verdict
      \<and> end_message.passed (endMessage verdict) = 1
      \<and> \<not> passed verdict)
   \<and> (\<exists>verdict.
      snd (runTestsInThreadForPermissionSet host0 False [(''read'', True)] None
             [Decoded (msgStart [''a'', ''b'']), Decoded (msgEnd 1 0 0)]) = Some (Inr verdict)
      \<and> end_message.passed (endMessage verdict) = 1
      \<and> \<not> passed verdict)"
  using passed_iff_declared_eq_completed
    [of "[Decoded (msgStart [''a'', ''b'']), Decoded (msgEnd 1 0 0)]" exit0
        host0 "''127.0.0.1:4510''" False "[(''read'', True)]" None]
  by (auto simp: msgStart_def msgEnd_def exit0_def is_End_def)

text \<open>
  C2 as the code has it. An error thrown by the run of one permission set is not
  caught: it leaves \<open>masterRunnerMain\<close>. The events are those up to the failing run;
  no later permission set is run and no summary is printed.
\<close>

theorem run_error_aborts_sweep:
  "map (\<lambda>y. snd (processRun h ''127.0.0.1:4510'' v f y)) pre = map Inr verdicts
   \<and> snd (processRun h ''127.0.0.1:4510'' v f x) = Inl e \<longrightarrow>
   masterRunnerMain h v f (pre @ x # post) =
     (discovered h (map fst (pre @ x # post)) @ [Listen ''127.0.0.1'' 4510]
      @ concat (map (\<lambda>y. fst (processRun h ''127.0.0.1:4510'' v f y)) pre)
      @ fst (processRun h ''127.0.0.1:4510'' v f x),
      Threw e)"
proof
  assume a: "map (\<lambda>y. snd (processRun h ''127.0.0.1:4510'' v f y)) pre = map Inr verdicts
   \<and> snd (processRun h ''127.0.0.1:4510'' v f x) = Inl e"
  from masterSweep_stops[of h "''127.0.0.1:4510''" v f pre verdicts x e post] a
  show "masterRunnerMain h v f (pre @ x # post) =
     (discovered h (map fst (pre @ x # post)) @ [Listen ''127.0.0.1'' 4510]
      @ concat (map (\<lambda>y. fst (processRun h ''127.0.0.1:4510'' v f y)) pre)
      @ fst (processRun h ''127.0.0.1:4510'' v f x),
      Threw e)"
    by (simp add: masterRunnerMain_def)
qed

text \<open>
  C2 as stated fails: the first of two permission sets sends nothing, the second would
  pass. The sweep ends with the error of the first; the second is never started and no
  summary is printed.
\<close>

theorem run_error_not_downgraded_counterexample:
  "masterRunnerMain host0 False None
     [([(''read'', True)], [], exit0),
      ([(''net'', True)], [Decoded (msgStart [''a'']), Decoded (msgEnd 1 0 0)], exit0)]
   = ([ConsoleLog [Str ''Discovered permission combinations for tests:'', Num 2],
       ConsoleLog [Str (CHR 0x09 # ''read'')],
       ConsoleLog [Str (CHR 0x09 # ''net'')],
       Listen ''127.0.0.1'' 4510,
       ConsoleLog [Str ''Running tests for: read''],
       Run [''deno'', ''run'', ''-A'', ''cli/js/tests/unit_test_runner.ts'', ''--worker'',
            ''--addr=127.0.0.1:4510'', ''--perms=read''] ''null'',
       Accept,
       ConnClose],
      Threw NoStartReported)"
  by (simp add: masterRunnerMain_def runTestsForPermissionSet_def Let_def discovered_def
      spawnWorkerRunner_def filterArgs_def host0_def permStr_def exit0_def)

theorem run_error_aborts_sweep_witness:
  "masterRunnerMain host0 False None
     ([([(''env'', True)], [Decoded (msgStart [''a'']), Decoded (msgEnd 1 0 0)], exit0)]
      @ ([(''read'', True)], [Decoded (msgStart [''a''])], exit0)
      # [([(''net'', True)], [Decoded (msgStart [''a'']), Decoded (msgEnd 1 0 0)], exit0)])
   = ([ConsoleLog [Str ''Discovered permission combinations for tests:'', Num 3],
       ConsoleLog [Str (CHR 0x09 # ''env'')],
       ConsoleLog [Str (CHR 0x09 # ''read'')],
       ConsoleLog [Str (CHR 0x09 # ''net'')],
       Listen ''127.0.0.1'' 4510,
       ConsoleLog [Str ''Running tests for: env''],
       Run [''deno'', ''run'', ''-A'', ''cli/js/tests/unit_test_runner.ts'', ''--worker'',
            ''--addr=127.0.0.1:4510'', ''--perms=env''] ''null'',
       Accept,
       ReportToConsole (msgStart [''a'']),
       ReportToConsole (msgEnd 1 0 0),
       ConnClose, ProcessStatus, ProcessClose,
       ConsoleLog [Str ''Running tests for: read''],
       Run [''deno'', ''run'', ''-A'', ''cli/js/tests/unit_test_runner.ts'', ''--worker'',
            ''--addr=127.0.0.1:4510'', ''--perms=read''] ''null'',
       Accept,
       ReportToConsole (msgStart [''a'']),
       ConnClose],
      Threw NoEndReported)"
proof -
  let ?e1 = "\<lparr>end_message.passed = 1, failed = 0, ignored = 0, duration = 0\<rparr>"
  let ?pre = "[([(''env'', True)], [Decoded (msgStart [''a'']), Decoded (msgEnd 1 0 0)], exit0)]"
  let ?x = "([(''read'', True)], [Decoded (msgStart [''a''])], exit0)"
  let ?post = "[([(''net'', True)], [Decoded (msgStart [''a'']), Decoded (msgEnd 1 0 0)], exit0)]"
  let ?vs = "[\<lparr>perms = [(''env'', True)], passed = True, endMessage = ?e1, permsStr = ''env''\<rparr>]"
  have p: "map (\<lambda>y. snd (processRun host0 ''127.0.0.1:4510'' False None y)) ?pre = map Inr ?vs"
    by (simp add: processRun_def process_result msgStart_def msgEnd_def exit0_def host0_def
        permStr_def)
  have x: "snd (processRun host0 ''127.0.0.1:4510'' False None ?x) = Inl NoEndReported"
    by (simp add: processRun_def process_result msgStart_def)
  from p x run_error_aborts_sweep[of host0 False None ?pre ?vs ?x NoEndReported ?post]
  show ?thesis
    by (simp add: processRun_def runTestsForPermissionSet_def Let_def discovered_def
      spawnWorkerRunner_def filterArgs_def host0_def permStr_def exit0_def msgStart_def msgEnd_def)
qed




text \<open>
  C4 as the code has it. A worker process that exits without success never gives a
  verdict, whatever it sent: with a Start and an End in the stream, matching counts or
  not, the run throws the exit status error, and a sweep that holds such a run does not
  end in success.
\<close>

theorem abnormal_exit_overrides_stream:
  "\<not> success st \<longrightarrow>
     (\<forall>verdict. snd (runTestsForPermissionSet h a v ps f lines st) \<noteq> Inr verdict)
   \<and> (Malformed \<notin> set lines \<and> starts lines \<noteq> [] \<and> ends lines \<noteq> [] \<longrightarrow>
        snd (runTestsForPermissionSet h a v ps f lines st) = Inl (WorkerExitStatus (code st)))
   \<and> ((ps, lines, st) \<in> set sweep \<longrightarrow> snd (masterRunnerMain h v f sweep) \<noteq> Returned)"
proof (intro impI conjI allI)
  fix verdict
  assume "\<not> success st"
  then show "snd (runTestsForPermissionSet h a v ps f lines st) \<noteq> Inr verdict"
    by (simp add: process_result)
next
  assume "\<not> success st" and "Malformed \<notin> set lines \<and> starts lines \<noteq> [] \<and> ends lines \<noteq> []"
  then show "snd (runTestsForPermissionSet h a v ps f lines st) = Inl (WorkerExitStatus (code st))"
    by (simp add: process_result)
next
  assume n: "\<not> success st" and m: "(ps, lines, st) \<in> set sweep"
  show "snd (masterRunnerMain h v f sweep) \<noteq> Returned"
  proof
    assume "snd (masterRunnerMain h v f sweep) = Returned"
    from masterRunnerMain_Returned[OF this] obtain rs
      where "snd (masterSweep h ''127.0.0.1:4510'' v f sweep) = Inr rs" by blast
    from masterSweep_Inr_all[OF this m] obtain r
      where "snd (runTestsForPermissionSet h ''127.0.0.1:4510'' v ps f lines st) = Inr r"
      by (auto simp: processRun_def)
    with n show False by (simp add: process_result split: if_splits)
  qed
qed

text \<open>
  C4 as stated fails: after a Start of two tests and an End with two passed, a worker
  process that exits with code 1 leaves no verdict at all, with \<open>passed\<close> false or
  otherwise: the run throws the exit status error.
\<close>

theorem abnormal_exit_throws_counterexample:
  "runTestsForPermissionSet host0 ''127.0.0.1:4510'' False [(''read'', True)] None
     [Decoded (msgStart [''a'', ''b'']), Decoded (msgEnd 2 0 0)] exit1
   = ([ConsoleLog [Str ''Running tests for: read''],
       Run [''deno'', ''run'', ''-A'', ''cli/js/tests/unit_test_runner.ts'', ''--worker'',
            ''--addr=127.0.0.1:4510'', ''--perms=read''] ''null'',
       Accept,
       ReportToConsole (msgStart [''a'', ''b'']),
       ReportToConsole (msgEnd 2 0 0),
       ConnClose, ProcessStatus],
      Inl (WorkerExitStatus 1))"
  by (simp add: runTestsForPermissionSet_def Let_def spawnWorkerRunner_def filterArgs_def
      host0_def permStr_def exit1_def msgStart_def msgEnd_def)

theorem abnormal_exit_overrides_stream_witness:
  "snd (runTestsForPermissionSet host0 ''127.0.0.1:4510'' False [(''read'', True)] None
          [Decoded (msgStart [''a'', ''b'']), Decoded (msgEnd 2 0 0)] exit0)
     = Inr \<lparr>perms = [(''read'', True)], passed = True,
            endMessage = \<lparr>end_message.passed = 2, failed = 0, ignored = 0, duration = 0\<rparr>,
            permsStr = ''read''\<rparr>
   \<and> snd (runTestsForPermissionSet host0 ''127.0.0.1:4510'' False [(''read'', True)] None
          [Decoded (msgStart [''a'', ''b'']), Decoded (msgEnd 2 0 0)] exit1)
     = Inl (WorkerExitStatus 1)
   \<and> snd (masterRunnerMain host0 False None
          [([(''read'', True)], [Decoded (msgStart [''a'', ''b'']), Decoded (msgEnd 2 0 0)], exit1)])
     \<noteq> Returned"
proof -
  have ok: "snd (runTestsForPermissionSet host0 ''127.0.0.1:4510'' False [(''read'', True)] None
          [Decoded (msgStart [''a'', ''b'']), Decoded (msgEnd 2 0 0)] exit0)
     = Inr \<lparr>perms = [(''read'', True)], passed = True,
            endMessage = \<lparr>end_message.passed = 2, failed = 0, ignored = 0, duration = 0\<rparr>,
            permsStr = ''read''\<rparr>"
    by (simp add: runTestsForPermissionSet_def Let_def msgStart_def msgEnd_def exit0_def host0_def
        permStr_def)
  show ?thesis
    using ok abnormal_exit_overrides_stream
        [of exit1 host0 "''127.0.0.1:4510''" False "[(''read'', True)]" None
            "[Decoded (msgStart [''a'', ''b'']), Decoded (msgEnd 2 0 0)]"
            "[([(''read'', True)], [Decoded (msgStart [''a'', ''b'']), Decoded (msgEnd 2 0 0)], exit1)]"]
    by (simp add: msgStart_def msgEnd_def exit1_def)
qed

text \<open>
  C5 as the code has it. The worker collector stops at the first End: whatever follows
  it in the stream changes neither the events nor the result, and the last event is the
  termination of the worker. The process collector reads on: it reports every line of
  the stream before it closes the connection.
\<close>

theorem worker_collector_stops_at_End:
  "(is_End l \<longrightarrow>
      runTestsInThreadForPermissionSet h v ps f (pre @ l # post) =
      runTestsInThreadForPermissionSet h v ps f (pre @ [l]))
   \<and> (is_End l \<and> Malformed \<notin> set pre \<and> \<not> list_ex is_End pre \<longrightarrow>
      fst (runTestsInThreadForPermissionSet h v ps f (pre @ l # post)) =
        [ConsoleLog [Str (''Running tests for: '' @ fmtPerms h ps)],
         NewWorker (permStr ps) ps, PostMessage f v]
        @ map ReportToConsole (decoded (pre @ [l])) @ [Terminate])
   \<and> (Malformed \<notin> set lines \<longrightarrow>
      fst (runTestsForPermissionSet h a v ps f lines st) =
        [ConsoleLog [Str (''Running tests for: '' @ fmtPerms h ps)],
         spawnWorkerRunner h v a ps f, Accept]
        @ map ReportToConsole (decoded lines)
        @ [ConnClose]
        @ (if starts lines = [] \<or> ends lines = [] then []
           else if success st then [ProcessStatus, ProcessClose] else [ProcessStatus]))"
proof (intro conjI impI)
  assume "is_End l"
  then have "upto_End (pre @ l # post) = upto_End (pre @ [l])" by (rule upto_End_append)
  with thread_upto_End[of h v ps f "pre @ l # post"] thread_upto_End[of h v ps f "pre @ [l]"]
  show "runTestsInThreadForPermissionSet h v ps f (pre @ l # post) =
      runTestsInThreadForPermissionSet h v ps f (pre @ [l])" by simp
next
  assume a: "is_End l \<and> Malformed \<notin> set pre \<and> \<not> list_ex is_End pre"
  then have u: "upto_End (pre @ l # post) = pre @ [l]"
    using upto_End_append[of l pre post] upto_End_last[of pre l] by simp
  from a have m: "Malformed \<notin> set (pre @ [l])" by (auto simp: is_End_def)
  from a have e: "ends (pre @ l # post) \<noteq> []"
    using ends_append[of pre "l # post"] ends_append[of "[l]" post] ends_is_End[of l] by simp
  from thread_events[of "pre @ l # post" h v ps f] u m e
  show "fst (runTestsInThreadForPermissionSet h v ps f (pre @ l # post)) =
        [ConsoleLog [Str (''Running tests for: '' @ fmtPerms h ps)],
         NewWorker (permStr ps) ps, PostMessage f v]
        @ map ReportToConsole (decoded (pre @ [l])) @ [Terminate]" by simp
next
  assume "Malformed \<notin> set lines"
  then show "fst (runTestsForPermissionSet h a v ps f lines st) =
        [ConsoleLog [Str (''Running tests for: '' @ fmtPerms h ps)],
         spawnWorkerRunner h v a ps f, Accept]
        @ map ReportToConsole (decoded lines)
        @ [ConnClose]
        @ (if starts lines = [] \<or> ends lines = [] then []
           else if success st then [ProcessStatus, ProcessClose] else [ProcessStatus])"
    by (rule process_events)
qed

text \<open>
  C5 as stated fails for the process collector: a Start that follows the End is read,
  reported and recorded, and turns a run that had passed into one that has not.
\<close>

theorem process_collector_reads_past_End_counterexample:
  "runTestsForPermissionSet host0 ''127.0.0.1:4510'' False [(''read'', True)] None
     [Decoded (msgStart [''a'']), Decoded (msgEnd 1 0 0), Decoded (msgStart [''a'', ''b''])] exit0
   = ([ConsoleLog [Str ''Running tests for: read''],
       Run [''deno'', ''run'', ''-A'', ''cli/js/tests/unit_test_runner.ts'', ''--worker'',
            ''--addr=127.0.0.1:4510'', ''--perms=read''] ''null'',
       Accept,
       ReportToConsole (msgStart [''a'']),
       ReportToConsole (msgEnd 1 0 0),
       ReportToConsole (msgStart [''a'', ''b'']),
       ConnClose, ProcessStatus, ProcessClose],
      Inr \<lparr>perms = [(''read'', True)], passed = False,
           endMessage = \<lparr>end_message.passed = 1, failed = 0, ignored = 0, duration = 0\<rparr>,
           permsStr = ''read''\<rparr>)"
  by (simp add: runTestsForPermissionSet_def Let_def spawnWorkerRunner_def filterArgs_def
      host0_def permStr_def exit0_def msgStart_def msgEnd_def)

theorem worker_collector_stops_at_End_witness:
  "runTestsInThreadForPermissionSet host0 False [(''read'', True)] None
     ([Decoded (msgStart [''a''])] @ Decoded (msgEnd 1 0 0) # [Decoded (msgStart [''a'', ''b''])])
   = ([ConsoleLog [Str ''Running tests for: read''],
       NewWorker ''read'' [(''read'', True)],
       PostMessage None False,
       ReportToConsole (msgStart [''a'']),
       ReportToConsole (msgEnd 1 0 0),
       Terminate],
      Some (Inr \<lparr>perms = [(''read'', True)], passed = True,
                 endMessage = \<lparr>end_message.passed = 1, failed = 0, ignored = 0, duration = 0\<rparr>,
                 permsStr = ''read''\<rparr>))
   \<and> fst (runTestsForPermissionSet host0 ''127.0.0.1:4510'' False [(''read'', True)] None
          [Decoded (msgStart [''a'']), Decoded (msgEnd 1 0 0), Decoded (msgStart [''a'', ''b''])] exit0)
     = [ConsoleLog [Str ''Running tests for: read''],
        Run [''deno'', ''run'', ''-A'', ''cli/js/tests/unit_test_runner.ts'', ''--worker'',
             ''--addr=127.0.0.1:4510'', ''--perms=read''] ''null'',
        Accept,
        ReportToConsole (msgStart [''a'']),
        ReportToConsole (msgEnd 1 0 0),
        ReportToConsole (msgStart [''a'', ''b'']),
        ConnClose, ProcessStatus, ProcessClose]"
proof -
  have l: "is_End (Decoded (msgEnd 1 0 0))" by (simp add: is_End_def msgEnd_def)
  have s: "runTestsInThreadForPermissionSet host0 False [(''read'', True)] None
     ([Decoded (msgStart [''a''])] @ [Decoded (msgEnd 1 0 0)])
   = ([ConsoleLog [Str ''Running tests for: read''],
       NewWorker ''read'' [(''read'', True)],
       PostMessage None False,
       ReportToConsole (msgStart [''a'']),
       ReportToConsole (msgEnd 1 0 0),
       Terminate],
      Some (Inr \<lparr>perms = [(''read'', True)], passed = True,
                 endMessage = \<lparr>end_message.passed = 1, failed = 0, ignored = 0, duration = 0\<rparr>,
                 permsStr = ''read''\<rparr>))"
    by (simp add: runTestsInThreadForPermissionSet_def Let_def host0_def permStr_def
        msgStart_def msgEnd_def)
  from l s worker_collector_stops_at_End
      [of "Decoded (msgEnd 1 0 0)" host0 False "[(''read'', True)]" None
          "[Decoded (msgStart [''a''])]" "[Decoded (msgStart [''a'', ''b''])]"
          "[Decoded (msgStart [''a'']), Decoded (msgEnd 1 0 0), Decoded (msgStart [''a'', ''b''])]"
          "''127.0.0.1:4510''" exit0]
  show ?thesis
    by (simp add: spawnWorkerRunner_def filterArgs_def host0_def permStr_def exit0_def
        msgStart_def msgEnd_def)
qed

text \<open>
  C6 as the code has it. The worker process connects to the reporting address first,
  with the permissions it was started with. Then it revokes, in the order of
  \<open>PERMISSIONS\<close>, each of the seven permissions that is not in the grant list, and
  grants none: what it holds afterwards is what it held before less those revoked, and
  when it was started with all seven, it is exactly the granted ones. Only then are the
  tests registered and run. When the connection fails, nothing is revoked and no test is
  registered or run.
\<close>

theorem worker_connects_then_drops_then_runs:
  "workerRunnerMain True held addrStr pstr flt =
     (Connect held (fst (splitAddr addrStr)) (snd (splitAddr addrStr))
      # map Revoke (filter (\<lambda>p. p \<notin> set (parsePerms pstr)) PERMISSIONS)
      @ [RegisterUnitTests (held - (set PERMISSIONS - set (parsePerms pstr))),
         RunTests (held - (set PERMISSIONS - set (parsePerms pstr))) flt],
      Inr ())
   \<and> held - (set PERMISSIONS - set (parsePerms pstr)) \<subseteq> held
   \<and> set PERMISSIONS - (set PERMISSIONS - set (parsePerms pstr))
       = set PERMISSIONS \<inter> set (parsePerms pstr)
   \<and> workerRunnerMain False held addrStr pstr flt =
       ([Connect held (fst (splitAddr addrStr)) (snd (splitAddr addrStr))], Inl ConnectFailed)"
proof (intro conjI)
  show "workerRunnerMain True held addrStr pstr flt =
     (Connect held (fst (splitAddr addrStr)) (snd (splitAddr addrStr))
      # map Revoke (filter (\<lambda>p. p \<notin> set (parsePerms pstr)) PERMISSIONS)
      @ [RegisterUnitTests (held - (set PERMISSIONS - set (parsePerms pstr))),
         RunTests (held - (set PERMISSIONS - set (parsePerms pstr))) flt],
      Inr ())"
    using workerRunnerMain_connected[of held addrStr pstr flt] by (simp add: permsToDrop_def)
  show "workerRunnerMain False held addrStr pstr flt =
       ([Connect held (fst (splitAddr addrStr)) (snd (splitAddr addrStr))], Inl ConnectFailed)"
    by (cases "splitAddr addrStr") (simp add: workerRunnerMain_def Let_def)
qed auto

text \<open>
  C6 as stated fails on the order of the connection and the downgrade: a worker
  started with all seven permissions and granted \<open>read\<close> and \<open>net\<close> connects while it
  still holds all seven, and revokes the other five afterwards.
\<close>

theorem worker_connects_before_drop_counterexample:
  "fst (workerRunnerMain True (set PERMISSIONS) ''127.0.0.1:4510'' ''read,net'' None)
   = [Connect {''read'', ''write'', ''net'', ''env'', ''run'', ''plugin'', ''hrtime''}
        ''127.0.0.1'' (Some ''4510''),
      Revoke ''write'', Revoke ''env'', Revoke ''run'', Revoke ''plugin'', Revoke ''hrtime'',
      RegisterUnitTests {''read'', ''net''},
      RunTests {''read'', ''net''} None]"
  by (auto simp: workerRunnerMain_def Let_def splitAddr_def parsePerms_def
      dropWorkerPermissions_def permsToDrop_def PERMISSIONS_def)

text \<open>
  C7. When every run of the sweep has given a verdict, the main function returns
  (exit code 0) if every verdict has \<open>passed\<close> true, and calls \<open>Deno.exit(1)\<close> otherwise;
  this holds for \<open>masterRunnerMain\<close> and for \<open>threadedRunnerMain\<close>.
\<close>

theorem overall_outcome_is_conjunction:
  "(map (\<lambda>y. snd (processRun h ''127.0.0.1:4510'' v f y)) sweep = map Inr verdicts \<longrightarrow>
      snd (masterRunnerMain h v f sweep) = (if list_all passed verdicts then Returned else Exited 1))
   \<and> (map (\<lambda>y. snd (threadRun h v f y)) tsweep = map (\<lambda>r. Some (Inr r)) verdicts \<longrightarrow>
      snd (threadedRunnerMain h v f tsweep) = (if list_all passed verdicts then Returned else Exited 1))"
proof (intro conjI impI)
  assume "map (\<lambda>y. snd (processRun h ''127.0.0.1:4510'' v f y)) sweep = map Inr verdicts"
  from masterSweep_all[OF this] conclude_outcome[of verdicts]
  show "snd (masterRunnerMain h v f sweep) = (if list_all passed verdicts then Returned else Exited 1)"
    by (cases "conclude verdicts") (simp add: masterRunnerMain_def)
next
  assume "map (\<lambda>y. snd (threadRun h v f y)) tsweep = map (\<lambda>r. Some (Inr r)) verdicts"
  from threadedSweep_all[OF this] conclude_outcome[of verdicts]
  show "snd (threadedRunnerMain h v f tsweep) = (if list_all passed verdicts then Returned else Exited 1)"
    by (cases "conclude verdicts") (simp add: threadedRunnerMain_def)
qed

theorem overall_outcome_is_conjunction_witness:
  "snd (masterRunnerMain host0 False None
          [([(''read'', True)], [Decoded (msgStart [''a'']), Decoded (msgEnd 1 0 0)], exit0),
           ([(''net'', True)], [Decoded (msgStart [''a'', ''b'']), Decoded (msgEnd 1 0 0)], exit0)])
     = Exited 1
   \<and> snd (threadedRunnerMain host0 False None
          [([(''read'', True)], [Decoded (msgStart [''a'']), Decoded (msgEnd 1 0 0)]),
           ([(''net'', True)], [Decoded (msgStart [''a'', ''b'']), Decoded (msgEnd 1 0 1)])])
     = Returned"
proof -
  let ?e1 = "\<lparr>end_message.passed = 1, failed = 0, ignored = 0, duration = 0\<rparr>"
  let ?e2 = "\<lparr>end_message.passed = 1, failed = 0, ignored = 1, duration = 0\<rparr>"
  let ?sweep = "[([(''read'', True)], [Decoded (msgStart [''a'']), Decoded (msgEnd 1 0 0)], exit0),
           ([(''net'', True)], [Decoded (msgStart [''a'', ''b'']), Decoded (msgEnd 1 0 0)], exit0)]"
  let ?tsweep = "[([(''read'', True)], [Decoded (msgStart [''a'']), Decoded (msgEnd 1 0 0)]),
           ([(''net'', True)], [Decoded (msgStart [''a'', ''b'']), Decoded (msgEnd 1 0 1)])]"
  let ?vs = "[\<lparr>perms = [(''read'', True)], passed = True, endMessage = ?e1, permsStr = ''read''\<rparr>,
              \<lparr>perms = [(''net'', True)], passed = False, endMessage = ?e1, permsStr = ''net''\<rparr>]"
  let ?ws = "[\<lparr>perms = [(''read'', True)], passed = True, endMessage = ?e1, permsStr = ''read''\<rparr>,
              \<lparr>perms = [(''net'', True)], passed = True, endMessage = ?e2, permsStr = ''net''\<rparr>]"
  have m: "map (\<lambda>y. snd (processRun host0 ''127.0.0.1:4510'' False None y)) ?sweep = map Inr ?vs"
    by (simp add: processRun_def process_result msgStart_def msgEnd_def exit0_def host0_def
        permStr_def)
  have t: "map (\<lambda>y. snd (threadRun host0 False None y)) ?tsweep = map (\<lambda>r. Some (Inr r)) ?ws"
    by (simp add: threadRun_def thread_result msgStart_def msgEnd_def host0_def permStr_def
        is_End_def)
  from m t overall_outcome_is_conjunction[of host0 False None ?sweep ?vs ?tsweep]
    overall_outcome_is_conjunction[of host0 False None ?sweep ?ws ?tsweep]
  show ?thesis by simp
qed

text \<open>
  C8 as the code has it. When every run has returned a result and some result has
  \<open>passed\<close> false, the sweep prints one summary block for every permission set, passed
  or not, each holding the rendered set and its End summary, then the one line
  "Unit tests failed", and exits with code 1. A run with no Start, a run with no End
  and a run whose worker process exits without success each throw an error of their
  own; the sweep then ends with that error, uncaught, and what it has printed ends
  with the events of the failing run, which open with the line
  "Running tests for:" and the rendered set.
\<close>

theorem failed_sweep_output:
  "(map (\<lambda>y. snd (processRun h ''127.0.0.1:4510'' v f y)) sweep = map Inr verdicts
    \<and> \<not> list_all passed verdicts \<longrightarrow>
    masterRunnerMain h v f sweep =
      (discovered h (map fst sweep) @ [Listen ''127.0.0.1'' 4510]
       @ concat (map (\<lambda>y. fst (processRun h ''127.0.0.1:4510'' v f y)) sweep)
       @ concat (map summaryBlock verdicts)
       @ [ConsoleError ''Unit tests failed'', Exit 1],
       Exited 1))
   \<and> (Malformed \<notin> set lines \<and> snd (runTestsForPermissionSet h a v ps f lines st) = Inl e \<longrightarrow>
        (e = NoStartReported \<longleftrightarrow> starts lines = [])
      \<and> (e = NoEndReported \<longleftrightarrow> starts lines \<noteq> [] \<and> ends lines = [])
      \<and> (e = WorkerExitStatus (code st) \<longleftrightarrow>
            starts lines \<noteq> [] \<and> ends lines \<noteq> [] \<and> \<not> success st))
   \<and> (map (\<lambda>y. snd (processRun h ''127.0.0.1:4510'' v f y)) pre = map Inr passed_by
      \<and> snd (processRun h ''127.0.0.1:4510'' v f x) = Inl e' \<longrightarrow>
      masterRunnerMain h v f (pre @ x # post) =
        (discovered h (map fst (pre @ x # post)) @ [Listen ''127.0.0.1'' 4510]
         @ concat (map (\<lambda>y. fst (processRun h ''127.0.0.1:4510'' v f y)) pre)
         @ fst (processRun h ''127.0.0.1:4510'' v f x),
         Threw e')
      \<and> hd (fst (processRun h ''127.0.0.1:4510'' v f x)) =
          ConsoleLog [Str (''Running tests for: '' @ fmtPerms h (fst x))])"
proof (intro conjI impI)
  assume a: "map (\<lambda>y. snd (processRun h ''127.0.0.1:4510'' v f y)) sweep = map Inr verdicts
   \<and> \<not> list_all passed verdicts"
  then have m: "masterSweep h ''127.0.0.1:4510'' v f sweep =
      (concat (map (\<lambda>y. fst (processRun h ''127.0.0.1:4510'' v f y)) sweep), Inr verdicts)"
    using masterSweep_all[of h "''127.0.0.1:4510''" v f sweep verdicts] by simp
  obtain evs out where c: "conclude verdicts = (evs, out)" by (cases "conclude verdicts") auto
  with a conclude_events[of verdicts] conclude_outcome[of verdicts]
  have "evs = concat (map summaryBlock verdicts) @ [ConsoleError ''Unit tests failed'', Exit 1]"
    and "out = Exited 1" by simp_all
  with m c show "masterRunnerMain h v f sweep =
     (discovered h (map fst sweep) @ [Listen ''127.0.0.1'' 4510]
      @ concat (map (\<lambda>y. fst (processRun h ''127.0.0.1:4510'' v f y)) sweep)
      @ concat (map summaryBlock verdicts)
      @ [ConsoleError ''Unit tests failed'', Exit 1],
      Exited 1)"
    by (simp add: masterRunnerMain_def)
next
  assume b: "Malformed \<notin> set lines \<and> snd (runTestsForPermissionSet h a v ps f lines st) = Inl e"
  then show "e = NoStartReported \<longleftrightarrow> starts lines = []"
    by (auto simp: process_result split: if_splits)
  from b show "e = NoEndReported \<longleftrightarrow> starts lines \<noteq> [] \<and> ends lines = []"
    by (auto simp: process_result split: if_splits)
  from b show "e = WorkerExitStatus (code st) \<longleftrightarrow>
            starts lines \<noteq> [] \<and> ends lines \<noteq> [] \<and> \<not> success st"
    by (auto simp: process_result split: if_splits)
next
  assume c: "map (\<lambda>y. snd (processRun h ''127.0.0.1:4510'' v f y)) pre = map Inr passed_by
      \<and> snd (processRun h ''127.0.0.1:4510'' v f x) = Inl e'"
  from masterSweep_stops[of h "''127.0.0.1:4510''" v f pre passed_by x e' post] c
  show "masterRunnerMain h v f (pre @ x # post) =
        (discovered h (map fst (pre @ x # post)) @ [Listen ''127.0.0.1'' 4510]
         @ concat (map (\<lambda>y. fst (processRun h ''127.0.0.1:4510'' v f y)) pre)
         @ fst (processRun h ''127.0.0.1:4510'' v f x),
         Threw e')"
    by (simp add: masterRunnerMain_def)
  show "hd (fst (processRun h ''127.0.0.1:4510'' v f x)) =
          ConsoleLog [Str (''Running tests for: '' @ fmtPerms h (fst x))]"
    by (simp add: processRun_def process_first_event)
qed

text \<open>
  C8 as stated fails: of two permission sets the first passes and the second declares
  two tests and completes one. After the runs the two sets get the same summary block,
  differing in the name only, and the failure is reported by the bare line
  "Unit tests failed": nothing printed says which set failed or why.
\<close>

theorem bare_failure_message_counterexample:
  "masterRunnerMain host0 False None
     [([(''read'', True)], [Decoded (msgStart [''a'']), Decoded (msgEnd 1 0 0)], exit0),
      ([(''net'', True)], [Decoded (msgStart [''a'', ''b'']), Decoded (msgEnd 1 0 0)], exit0)]
   = ([ConsoleLog [Str ''Discovered permission combinations for tests:'', Num 2],
       ConsoleLog [Str (CHR 0x09 # ''read'')],
       ConsoleLog [Str (CHR 0x09 # ''net'')],
       Listen ''127.0.0.1'' 4510,
       ConsoleLog [Str ''Running tests for: read''],
       Run [''deno'', ''run'', ''-A'', ''cli/js/tests/unit_test_runner.ts'', ''--worker'',
            ''--addr=127.0.0.1:4510'', ''--perms=read''] ''null'',
       Accept,
       ReportToConsole (msgStart [''a'']),
       ReportToConsole (msgEnd 1 0 0),
       ConnClose, ProcessStatus, ProcessClose,
       ConsoleLog [Str ''Running tests for: net''],
       Run [''deno'', ''run'', ''-A'', ''cli/js/tests/unit_test_runner.ts'', ''--worker'',
            ''--addr=127.0.0.1:4510'', ''--perms=net''] ''null'',
       Accept,
       ReportToConsole (msgStart [''a'', ''b'']),
       ReportToConsole (msgEnd 1 0 0),
       ConnClose, ProcessStatus, ProcessClose,
       ConsoleLog [Str ''Summary for read''],
       ReportToConsole (msgEnd 1 0 0),
       ConsoleLog [Str ''Summary for net''],
       ReportToConsole (msgEnd 1 0 0),
       ConsoleError ''Unit tests failed'',
       Exit 1],
      Exited 1)"
  by (simp add: masterRunnerMain_def runTestsForPermissionSet_def Let_def discovered_def
      conclude_def spawnWorkerRunner_def filterArgs_def host0_def permStr_def exit0_def
      msgStart_def msgEnd_def)

theorem failed_sweep_output_witness:
  "masterRunnerMain host0 False None
     [([(''read'', True)], [Decoded (msgStart [''a'', ''b'']), Decoded (msgEnd 1 0 0)], exit0)]
   = ([ConsoleLog [Str ''Discovered permission combinations for tests:'', Num 1],
       ConsoleLog [Str (CHR 0x09 # ''read'')],
       Listen ''127.0.0.1'' 4510,
       ConsoleLog [Str ''Running tests for: read''],
       Run [''deno'', ''run'', ''-A'', ''cli/js/tests/unit_test_runner.ts'', ''--worker'',
            ''--addr=127.0.0.1:4510'', ''--perms=read''] ''null'',
       Accept,
       ReportToConsole (msgStart [''a'', ''b'']),
       ReportToConsole (msgEnd 1 0 0),
       ConnClose, ProcessStatus, ProcessClose,
       ConsoleLog [Str ''Summary for read''],
       ReportToConsole (msgEnd 1 0 0),
       ConsoleError ''Unit tests failed'',
       Exit 1],
      Exited 1)
   \<and> masterRunnerMain host0 False None
     ([] @ ([(''net'', True)], [Decoded (msgStart [''a''])], exit0)
      # [([(''read'', True)], [Decoded (msgStart [''a'']), Decoded (msgEnd 1 0 0)], exit0)])
   = ([ConsoleLog [Str ''Discovered permission combinations for tests:'', Num 2],
       ConsoleLog [Str (CHR 0x09 # ''net'')],
       ConsoleLog [Str (CHR 0x09 # ''read'')],
       Listen ''127.0.0.1'' 4510,
       ConsoleLog [Str ''Running tests for: net''],
       Run [''deno'', ''run'', ''-A'', ''cli/js/tests/unit_test_runner.ts'', ''--worker'',
            ''--addr=127.0.0.1:4510'', ''--perms=net''] ''null'',
       Accept,
       ReportToConsole (msgStart [''a'']),
       ConnClose],
      Threw NoEndReported)"
proof -
  let ?e1 = "\<lparr>end_message.passed = 1, failed = 0, ignored = 0, duration = 0\<rparr>"
  let ?sweep = "[([(''read'', True)], [Decoded (msgStart [''a'', ''b'']), Decoded (msgEnd 1 0 0)], exit0)]"
  let ?vs = "[\<lparr>perms = [(''read'', True)], passed = False, endMessage = ?e1, permsStr = ''read''\<rparr>]"
  let ?x = "([(''net'', True)], [Decoded (msgStart [''a''])], exit0)"
  let ?post = "[([(''read'', True)], [Decoded (msgStart [''a'']), Decoded (msgEnd 1 0 0)], exit0)]"
  have m: "map (\<lambda>y. snd (processRun host0 ''127.0.0.1:4510'' False None y)) ?sweep = map Inr ?vs"
    by (simp add: processRun_def process_result msgStart_def msgEnd_def exit0_def host0_def
        permStr_def)
  have x: "snd (processRun host0 ''127.0.0.1:4510'' False None ?x) = Inl NoEndReported"
    by (simp add: processRun_def process_result msgStart_def)
  have n: "Malformed \<notin> set [Decoded (msgStart [''a''])]" by simp
  note t = failed_sweep_output
      [of host0 False None ?sweep ?vs "[Decoded (msgStart [''a''])]" "''127.0.0.1:4510''"
          "[(''net'', True)]" exit0 NoEndReported "[]" "[]" ?x NoEndReported ?post]
  from m x n t
  show ?thesis
    by (simp add: processRun_def runTestsForPermissionSet_def Let_def discovered_def
      summaryBlock_def spawnWorkerRunner_def filterArgs_def host0_def permStr_def exit0_def
      msgStart_def msgEnd_def)
qed

text \<open>
  C9 as the code has it. On a stream with no malformed line whose last message is its
  only End, and with a successful exit of the worker process, the two collectors give
  the same result: the same verdict, or the same missing-start error.
\<close>

theorem collectors_agree_when_End_is_last:
  "is_End l \<and> Malformed \<notin> set pre \<and> \<not> list_ex is_End pre \<and> success st \<longrightarrow>
   snd (runTestsInThreadForPermissionSet h v ps f (pre @ [l])) =
   Some (snd (runTestsForPermissionSet h a v ps f (pre @ [l]) st))"
proof
  assume a: "is_End l \<and> Malformed \<notin> set pre \<and> \<not> list_ex is_End pre \<and> success st"
  then have u: "upto_End (pre @ [l]) = pre @ [l]" using upto_End_last[of pre l] by simp
  from a have m: "Malformed \<notin> set (pre @ [l])" by (auto simp: is_End_def)
  from a obtain e where e: "ends (pre @ [l]) = [e]"
    using ends_append[of pre "[l]"] ends_no_End[of pre]
    by (cases l) (auto simp: is_End_def split: option.splits)
  from a m u e show "snd (runTestsInThreadForPermissionSet h v ps f (pre @ [l])) =
   Some (snd (runTestsForPermissionSet h a v ps f (pre @ [l]) st))"
    by (simp add: thread_result process_result)
qed

text \<open>
  C9 as stated fails: on a Start followed by two Ends, with a successful exit, the
  process collector records the second End and fails the run, and the worker collector
  records the first End and passes it.
\<close>

theorem collectors_disagree_counterexample:
  "snd (runTestsForPermissionSet host0 ''127.0.0.1:4510'' False [(''read'', True)] None
          [Decoded (msgStart [''a'']), Decoded (msgEnd 1 0 0), Decoded (msgEnd 0 0 0)] exit0)
     = Inr \<lparr>perms = [(''read'', True)], passed = False,
            endMessage = \<lparr>end_message.passed = 0, failed = 0, ignored = 0, duration = 0\<rparr>,
            permsStr = ''read''\<rparr>
   \<and> snd (runTestsInThreadForPermissionSet host0 False [(''read'', True)] None
          [Decoded (msgStart [''a'']), Decoded (msgEnd 1 0 0), Decoded (msgEnd 0 0 0)])
     = Some (Inr \<lparr>perms = [(''read'', True)], passed = True,
                  endMessage = \<lparr>end_message.passed = 1, failed = 0, ignored = 0, duration = 0\<rparr>,
                  permsStr = ''read''\<rparr>)"
  by (simp add: runTestsForPermissionSet_def runTestsInThreadForPermissionSet_def Let_def
      host0_def permStr_def exit0_def msgStart_def msgEnd_def)

theorem collectors_agree_when_End_is_last_witness:
  "snd (runTestsInThreadForPermissionSet host0 False [(''read'', True)] None
          ([Decoded (msgStart [''a'', ''b''])] @ [Decoded (msgEnd 1 0 1)]))
     = Some (Inr \<lparr>perms = [(''read'', True)], passed = True,
                  endMessage = \<lparr>end_message.passed = 1, failed = 0, ignored = 1, duration = 0\<rparr>,
                  permsStr = ''read''\<rparr>)"
proof -
  have l: "is_End (Decoded (msgEnd 1 0 1))" by (simp add: is_End_def msgEnd_def)
  have p: "\<not> list_ex is_End [Decoded (msgStart [''a'', ''b''])]"
    by (simp add: is_End_def msgStart_def)
  have r: "snd (runTestsForPermissionSet host0 ''127.0.0.1:4510'' False [(''read'', True)] None
          ([Decoded (msgStart [''a'', ''b''])] @ [Decoded (msgEnd 1 0 1)]) exit0)
     = Inr \<lparr>perms = [(''read'', True)], passed = True,
            endMessage = \<lparr>end_message.passed = 1, failed = 0, ignored = 1, duration = 0\<rparr>,
            permsStr = ''read''\<rparr>"
    by (simp add: runTestsForPermissionSet_def Let_def host0_def permStr_def exit0_def
        msgStart_def msgEnd_def)
  from l p r collectors_agree_when_End_is_last
      [of "Decoded (msgEnd 1 0 1)" "[Decoded (msgStart [''a'', ''b''])]" exit0 host0 False
          "[(''read'', True)]" None "''127.0.0.1:4510''"]
  show ?thesis by (simp add: exit0_def)
qed

text \<open>
  C10. The empty \<open>--perms\<close> string parses to the empty grant list, not to a list holding
  one empty name, so the worker revokes all seven permissions, in the order read, write,
  net, env, run, plugin, hrtime, before it registers and runs the tests; a worker
  started with all seven holds none of them then.
\<close>

theorem empty_perms_revokes_all:
  "parsePerms '''' = []
   \<and> fst (workerRunnerMain True held addrStr '''' flt) =
       Connect held (fst (splitAddr addrStr)) (snd (splitAddr addrStr))
       # [Revoke ''read'', Revoke ''write'', Revoke ''net'', Revoke ''env'', Revoke ''run'',
          Revoke ''plugin'', Revoke ''hrtime'']
       @ [RegisterUnitTests (held - {''read'', ''write'', ''net'', ''env'', ''run'', ''plugin'', ''hrtime''}),
          RunTests (held - {''read'', ''write'', ''net'', ''env'', ''run'', ''plugin'', ''hrtime''}) flt]
   \<and> fst (workerRunnerMain True (set PERMISSIONS) addrStr '''' flt) =
       Connect (set PERMISSIONS) (fst (splitAddr addrStr)) (snd (splitAddr addrStr))
       # [Revoke ''read'', Revoke ''write'', Revoke ''net'', Revoke ''env'', Revoke ''run'',
          Revoke ''plugin'', Revoke ''hrtime'']
       @ [RegisterUnitTests {}, RunTests {} flt]"
  by (auto simp: workerRunnerMain_connected parsePerms_def permsToDrop_def PERMISSIONS_def)

end
